theory Spec2Isabelle
  imports Main
begin

section \<open>Python values\<close>

text \<open>
  A Python \<open>str\<close> is a sequence of Unicode code points. The program reads IPA text, so
  a character is modelled by its code point (what \<open>ord\<close> returns), not by a byte.
  \<open>str\<close> turns an ASCII literal of the source into such a sequence.
\<close>

type_synonym pystr = "nat list"

definition str :: "string \<Rightarrow> pystr" where
  "str s = map of_char s"

datatype error = IndexError | KeyError | AssertionError | ValueError

text \<open>The values stored in the dictionaries that the program hands to the writer.\<close>

datatype pyval = PNone | PStr pystr | PList "pystr list"

text \<open>A dictionary literal, in insertion order.\<close>

type_synonym pydict = "(pystr \<times> pyval) list"

text \<open>\<open>d[k]\<close> on a plain dictionary: a missing key raises \<open>KeyError\<close>.\<close>

definition getitem :: "('k \<rightharpoonup> 'v) \<Rightarrow> 'k \<Rightarrow> error + 'v" where
  "getitem d k = (case d k of None \<Rightarrow> Inl KeyError | Some v \<Rightarrow> Inr v)"

text \<open>\<open>text[0] == a and text[-1] == b\<close>: indexing an empty string raises.\<close>

definition enclosed :: "char \<Rightarrow> char \<Rightarrow> pystr \<Rightarrow> error + bool" where
  "enclosed a b text =
     (if text = [] then Inl IndexError
      else Inr (hd text = of_char a \<and> last text = of_char b))"

text \<open>\<open>text[1:-1]\<close>; the slice of a string of length one or two is empty.\<close>

definition strip_ends :: "pystr \<Rightarrow> pystr" where
  "strip_ends text = butlast (tl text)"

text \<open>\<open>str(n)\<close> for a non-negative integer: its decimal digits.\<close>

fun str_of_nat :: "nat \<Rightarrow> pystr" where
  "str_of_nat n =
     (if n < 10 then [of_char CHR ''0'' + n]
      else str_of_nat (n div 10) @ [of_char CHR ''0'' + n mod 10])"

text \<open>How an f-string renders a value that is a string or \<open>None\<close>.\<close>

definition format_opt :: "pystr option \<Rightarrow> pystr" where
  "format_opt v = (case v of None \<Rightarrow> str ''None'' | Some s \<Rightarrow> s)"

definition pyval_of_opt :: "pystr option \<Rightarrow> pyval" where
  "pyval_of_opt v = (case v of None \<Rightarrow> PNone | Some s \<Rightarrow> PStr s)"

section \<open>External collaborators\<close>

text \<open>
  Four library functions decide what the program computes and are not part of the
  repository; the model takes them as parameters:
  \<^item> \<open>nfc\<close>: \<open>unicodedata.normalize("NFC", text)\<close>;
  \<^item> \<open>unidecode\<close>: the Latin transliteration of package unidecode;
  \<^item> \<open>slug\<close>: \<open>clldutils.misc.slug\<close>, which ends with an \<open>assert\<close> that its result
    holds letters, digits and spaces only, and so can raise \<open>AssertionError\<close>;
  \<^item> \<open>bipa\<close>: \<open>clts.bipa[text]\<close>, which answers either an \<open>UnknownSound\<close> or a
    sound with a string rendering (\<open>str(sound)\<close>) and a name (\<open>sound.name\<close>), and
    which raises \<open>ValueError\<close> on some texts.
  The program catches no exception, so an exception of a library function ends the run.
\<close>

datatype sound = UnknownSound | Sound pystr pystr

record collaborators =
  nfc :: "pystr \<Rightarrow> pystr"
  unidecode :: "pystr \<Rightarrow> pystr"
  slug :: "pystr \<Rightarrow> error + pystr"
  bipa :: "pystr \<Rightarrow> error + sound"

section \<open>Identifier generation\<close>

text \<open>
  \<open>"{0:0{1}X}".format(n, 4)\<close>: the upper-case hexadecimal digits of \<open>n\<close>, padded
  with zeros on the left to four digits, and longer when \<open>n\<close> needs more. \<open>hex_digit\<close>
  is only applied to a number below 16.
\<close>

definition hex_digit :: "nat \<Rightarrow> nat" where
  "hex_digit d = of_char (''0123456789ABCDEF'' ! d)"

fun hex_upper :: "nat \<Rightarrow> pystr" where
  "hex_upper n =
     (if n < 16 then [hex_digit n] else hex_upper (n div 16) @ [hex_digit (n mod 16)])"

definition format_04X :: "nat \<Rightarrow> pystr" where
  "format_04X n = replicate (4 - length (hex_upper n)) (of_char CHR ''0'') @ hex_upper n"

text \<open>Line 30 of \<open>compute_id\<close>: one token \<open>u\<close> + hexadecimal code point per character.\<close>

definition unicode_repr :: "pystr \<Rightarrow> pystr" where
  "unicode_repr text = concat (map (\<lambda>char. str ''u'' @ format_04X char) text)"

text \<open>
  \<open>compute_id\<close>, lines 25 to 34: the slug of the transliteration, an underscore, and
  the code point tokens. It raises when \<open>slug\<close> does.
\<close>

definition compute_id :: "collaborators \<Rightarrow> pystr \<Rightarrow> error + pystr" where
  "compute_id cl text =
     (let unicode_repr' = unicode_repr text in
      case slug cl (unidecode cl text) of
        Inl e \<Rightarrow> Inl e
      | Inr label \<Rightarrow> Inr (label @ str ''_'' @ unicode_repr'))"

text \<open>Reading a code point back from its token; used to show that tokens are unambiguous.\<close>

definition hex_digit_val :: "nat \<Rightarrow> nat" where
  "hex_digit_val c = (if c < 58 then c - 48 else c - 55)"

definition hex_val :: "pystr \<Rightarrow> nat" where
  "hex_val ds = foldl (\<lambda>acc c. 16 * acc + hex_digit_val c) 0 ds"

section \<open>Normalisation\<close>

text \<open>
  \<open>normalize_grapheme\<close>, lines 37 to 50. Both tests index the string, so an empty
  string raises \<open>IndexError\<close>: at the first test when the composed text is empty, at
  the second when stripping the parentheses left nothing.
\<close>

definition normalize_grapheme :: "collaborators \<Rightarrow> pystr \<Rightarrow> error + pystr" where
  "normalize_grapheme cl text0 =
     (let text = nfc cl text0 in
      case enclosed CHR ''('' CHR '')'' text of
        Inl e \<Rightarrow> Inl e
      | Inr paren \<Rightarrow>
          (let text = (if paren then strip_ends text else text) in
           case enclosed CHR ''['' CHR '']'' text of
             Inl e \<Rightarrow> Inl e
           | Inr bracket \<Rightarrow> Inr (if bracket then strip_ends text else text)))"

text \<open>
  \<open>normalize(normalize(s))\<close>: the second call runs on what the first returns, and
  an exception of the first call ends the computation.
\<close>

definition normalize_twice :: "collaborators \<Rightarrow> pystr \<Rightarrow> error + pystr" where
  "normalize_twice cl s =
     (case normalize_grapheme cl s of
        Inl e \<Rightarrow> Inl e
      | Inr t \<Rightarrow> normalize_grapheme cl t)"

section \<open>Format readers\<close>

text \<open>
  The dictionary a reader builds for one segment. The key \<open>marginal\<close> is present only
  in the entries of the UPSID reader; \<open>inv_id\<close> is \<open>None\<close> while the common reader has
  seen no inventory id yet.
\<close>

record entry =
  lang_id :: pystr
  source :: pystr
  inv_id :: "pystr option"
  segment_raw :: pystr
  marginal :: "pystr option"

text \<open>
  A row of \<open>csv.DictReader\<close>: column name to cell, for a line with a cell for every
  column of the header, so that every cell is a string. A column that the header does
  not have is no key of the row.
\<close>

type_synonym row = "pystr \<rightharpoonup> pystr"

subsection \<open>\<open>read_phoible_common\<close>, lines 53 to 96\<close>

definition segment_field :: "pystr list \<Rightarrow> pystr" where
  "segment_field fieldnames =
     (if str ''PhonemeOld'' \<in> set fieldnames then str ''PhonemeOld''
      else if str ''Segment'' \<in> set fieldnames then str ''Segment''
      else str ''Phoneme'')"

record common_state =
  curr_inventory_id :: "pystr option"
  curr_lang_name :: "pystr option"
  entries :: "entry list"

text \<open>
  The body of the loop over the rows. An empty cell is falsy. (So is the \<open>None\<close> that
  \<open>csv.DictReader\<close> puts where a line is too short; this reader only tests its cells
  for truth, so such a cell can be read as an empty one.)
\<close>

definition common_row :: "pystr \<Rightarrow> pystr \<Rightarrow> common_state \<Rightarrow> row \<Rightarrow> error + common_state" where
  "common_row src seg st row =
     (case getitem row (str ''InventoryID'') of
        Inl e \<Rightarrow> Inl e
      | Inr inventory \<Rightarrow>
          (let st = (if inventory \<noteq> []
                     then st\<lparr>curr_inventory_id := Some inventory\<rparr> else st) in
           case getitem row (str ''LanguageName'') of
             Inl e \<Rightarrow> Inl e
           | Inr lang \<Rightarrow>
               (let st = (if lang \<noteq> [] then st\<lparr>curr_lang_name := Some lang\<rparr> else st) in
                case getitem row seg of
                  Inl e \<Rightarrow> Inl e
                | Inr segment \<Rightarrow>
                    Inr (if segment \<noteq> []
                         then st\<lparr>entries := entries st @
                                [\<lparr>lang_id = src @ str ''_'' @ format_opt (curr_lang_name st),
                                  source = str ''PHOIBLE_'' @ src,
                                  inv_id = curr_inventory_id st,
                                  segment_raw = segment,
                                  marginal = None\<rparr>]\<rparr>
                         else st))))"

fun common_rows :: "pystr \<Rightarrow> pystr \<Rightarrow> common_state \<Rightarrow> row list \<Rightarrow> error + common_state" where
  "common_rows src seg st [] = Inr st"
| "common_rows src seg st (row # rows) =
     (case common_row src seg st row of
        Inl e \<Rightarrow> Inl e
      | Inr st' \<Rightarrow> common_rows src seg st' rows)"

definition read_phoible_common :: "pystr list \<Rightarrow> row list \<Rightarrow> pystr \<Rightarrow> error + entry list" where
  "read_phoible_common fieldnames rows src =
     (case common_rows src (segment_field fieldnames)
             \<lparr>curr_inventory_id = None, curr_lang_name = None, entries = []\<rparr> rows of
        Inl e \<Rightarrow> Inl e
      | Inr st \<Rightarrow> Inr (entries st))"

subsection \<open>The row-inheritance rule in the words of the specification\<close>

text \<open>
  The last non-empty value of a column among the rows read so far, the segment column
  chosen by priority, and no entry for a row whose segment cell is empty.
\<close>

definition cell :: "row \<Rightarrow> pystr \<Rightarrow> pystr" where
  "cell r k = (case r k of None \<Rightarrow> [] | Some v \<Rightarrow> v)"

definition last_nonempty :: "pystr list \<Rightarrow> pystr option" where
  "last_nonempty vs =
     (case filter (\<lambda>v. v \<noteq> []) vs of [] \<Rightarrow> None | w # ws \<Rightarrow> Some (last (w # ws)))"

definition priority_column :: "pystr list \<Rightarrow> pystr" where
  "priority_column fieldnames =
     (case filter (\<lambda>k. k \<in> set fieldnames) [str ''PhonemeOld'', str ''Segment''] of
        [] \<Rightarrow> str ''Phoneme''
      | k # ks \<Rightarrow> k)"

definition inherited_entry :: "pystr list \<Rightarrow> row list \<Rightarrow> pystr \<Rightarrow> nat \<Rightarrow> entry list" where
  "inherited_entry fieldnames rows src i =
     (if cell (rows ! i) (priority_column fieldnames) = [] then []
      else [\<lparr>lang_id = src @ str ''_'' @
               format_opt (last_nonempty
                 (map (\<lambda>r. cell r (str ''LanguageName'')) (take (Suc i) rows))),
             source = str ''PHOIBLE_'' @ src,
             inv_id = last_nonempty
                 (map (\<lambda>r. cell r (str ''InventoryID'')) (take (Suc i) rows)),
             segment_raw = cell (rows ! i) (priority_column fieldnames),
             marginal = None\<rparr>])"

definition inherited_entries :: "pystr list \<Rightarrow> row list \<Rightarrow> pystr \<Rightarrow> entry list" where
  "inherited_entries fieldnames rows src =
     concat (map (inherited_entry fieldnames rows src) [0..<length rows])"

subsection \<open>\<open>read_phoible_upsid\<close>, the loop over the segment rows, lines 205 to 218\<close>

text \<open>
  The tables \<open>lang_num2name\<close> and \<open>segments\<close> are built by lines 178 to 203 from three
  other files. Every dictionary in \<open>lang_num2name\<close> has the key \<open>name\<close>; the key
  \<open>id\<close> is there only for a language that the language-code file lists (the fields
  \<open>name'\<close> and \<open>id'\<close> below).
\<close>

record upsid_lang =
  name' :: pystr
  id' :: "pystr option"

definition str_of_bool :: "bool \<Rightarrow> pystr" where
  "str_of_bool b = (if b then str ''True'' else str ''False'')"

definition upsid_row ::
  "(pystr \<rightharpoonup> upsid_lang) \<Rightarrow> (pystr \<rightharpoonup> pystr) \<Rightarrow> row \<Rightarrow> error + entry" where
  "upsid_row lang_num2name segments row =
     (case getitem row (str ''upsidLangNum'') of
        Inl e \<Rightarrow> Inl e
      | Inr num \<Rightarrow>
     (case getitem lang_num2name num of
        Inl e \<Rightarrow> Inl e
      | Inr lang \<Rightarrow>
     (case id' lang of
        None \<Rightarrow> Inl KeyError
      | Some inventory \<Rightarrow>
     (case getitem row (str ''upsidCCID'') of
        Inl e \<Rightarrow> Inl e
      | Inr ccid \<Rightarrow>
     (case getitem segments ccid of
        Inl e \<Rightarrow> Inl e
      | Inr ipa \<Rightarrow>
     (case getitem row (str ''anomalous'') of
        Inl e \<Rightarrow> Inl e
      | Inr anomalous \<Rightarrow>
          Inr \<lparr>lang_id = str ''UPSID_'' @ name' lang,
               source = str ''PHOIBLE_UPSID'',
               inv_id = Some inventory,
               segment_raw = ipa,
               marginal = Some (str_of_bool (anomalous \<noteq> str ''0''))\<rparr>))))))"

fun upsid_rows ::
  "(pystr \<rightharpoonup> upsid_lang) \<Rightarrow> (pystr \<rightharpoonup> pystr) \<Rightarrow> entry list \<Rightarrow> row list \<Rightarrow> error + entry list" where
  "upsid_rows lang_num2name segments acc [] = Inr acc"
| "upsid_rows lang_num2name segments acc (row # rows) =
     (case upsid_row lang_num2name segments row of
        Inl e \<Rightarrow> Inl e
      | Inr entry \<Rightarrow> upsid_rows lang_num2name segments (acc @ [entry]) rows)"

section \<open>Aggregation: \<open>Dataset.cmd_makecldf\<close>\<close>

subsection \<open>The two mappings\<close>

text \<open>
  Lines 303 to 308: \<open>source_map\<close> is a \<open>defaultdict(list)\<close> that collects the
  bibliography keys of every inventory; reading a key it does not have answers the empty
  list. \<open>None\<close> is never one of its keys.
\<close>

fun build_source_map :: "(pystr \<rightharpoonup> pystr list) \<Rightarrow> row list \<Rightarrow> error + (pystr \<rightharpoonup> pystr list)" where
  "build_source_map source_map [] = Inr source_map"
| "build_source_map source_map (row # rows) =
     (case getitem row (str ''InventoryID'') of
        Inl e \<Rightarrow> Inl e
      | Inr inventory \<Rightarrow>
     (case getitem row (str ''BibtexKey'') of
        Inl e \<Rightarrow> Inl e
      | Inr key \<Rightarrow>
          build_source_map
            (source_map(inventory \<mapsto>
               (case source_map inventory of None \<Rightarrow> [] | Some keys \<Rightarrow> keys) @ [key]))
            rows))"

definition defaultdict_get :: "(pystr \<rightharpoonup> pystr list) \<Rightarrow> pystr option \<Rightarrow> pystr list" where
  "defaultdict_get source_map k =
     (case k of
        None \<Rightarrow> []
      | Some inventory \<Rightarrow> (case source_map inventory of None \<Rightarrow> [] | Some keys \<Rightarrow> keys))"

text \<open>
  Lines 342 to 353: \<open>phoible_lang\<close> maps the part of a language id before its first
  underscore to the language id; a later row overwrites an earlier one. The loop also
  reads the column \<open>Glottocode\<close> of every row.
\<close>

fun build_phoible_lang :: "(pystr \<rightharpoonup> pystr) \<Rightarrow> row list \<Rightarrow> error + (pystr \<rightharpoonup> pystr)" where
  "build_phoible_lang phoible_lang [] = Inr phoible_lang"
| "build_phoible_lang phoible_lang (row # rows) =
     (case getitem row (str ''ID'') of
        Inl e \<Rightarrow> Inl e
      | Inr lang \<Rightarrow>
     (case getitem row (str ''Glottocode'') of
        Inl e \<Rightarrow> Inl e
      | Inr glottocode \<Rightarrow>
          build_phoible_lang
            (phoible_lang(takeWhile (\<lambda>c. c \<noteq> of_char CHR ''_'') lang \<mapsto> lang))
            rows))"

text \<open>\<open>phoible_lang[entry["inv_id"]]\<close>: a plain dictionary, and \<open>None\<close> is not a key.\<close>

definition phoible_lang_get :: "(pystr \<rightharpoonup> pystr) \<Rightarrow> pystr option \<Rightarrow> error + pystr" where
  "phoible_lang_get phoible_lang k =
     (case k of None \<Rightarrow> Inl KeyError | Some inventory \<Rightarrow> getitem phoible_lang inventory)"

subsection \<open>One entry, lines 393 to 431\<close>

text \<open>Lines 394 to 401. The last branch assigns the flag whatever the reader had set.\<close>

definition mark_marginal :: "entry \<Rightarrow> error + entry" where
  "mark_marginal e =
     (case enclosed CHR ''<'' CHR ''>'' (segment_raw e) of
        Inl err \<Rightarrow> Inl err
      | Inr angle \<Rightarrow>
          if angle
          then Inr (e\<lparr>segment_raw := strip_ends (segment_raw e), marginal := Some (str ''True'')\<rparr>)
          else
            (case enclosed CHR 0x27 CHR 0x27 (segment_raw e) of
               Inl err \<Rightarrow> Inl err
             | Inr quoted \<Rightarrow>
                 if quoted
                 then Inr (e\<lparr>segment_raw := strip_ends (segment_raw e),
                            marginal := Some (str ''True'')\<rparr>)
                 else Inr (e\<lparr>marginal := Some (str ''False'')\<rparr>)))"

text \<open>Lines 404 and 405: \<open>split("|")[0]\<close> is the text before the first bar.\<close>

definition first_allophone :: "entry \<Rightarrow> entry" where
  "first_allophone e =
     (if length (segment_raw e) \<ge> 3 \<and> of_char CHR ''|'' \<in> set (segment_raw e)
      then e\<lparr>segment_raw := takeWhile (\<lambda>c. c \<noteq> of_char CHR ''|'') (segment_raw e)\<rparr>
      else e)"

text \<open>
  Lines 409 to 418: the tuple \<open>(par_id, normalized, bipa_grapheme, desc)\<close> of a
  normalised text. The lookup of line 409 can raise, and so can \<open>compute_id\<close> in
  either branch.
\<close>

type_synonym parameter = "pystr \<times> pystr \<times> pystr \<times> pystr"

definition canonical_parameter :: "collaborators \<Rightarrow> pystr \<Rightarrow> error + parameter" where
  "canonical_parameter cl normalized =
     (case bipa cl normalized of
        Inl e \<Rightarrow> Inl e
      | Inr UnknownSound \<Rightarrow>
          (case compute_id cl normalized of
             Inl e \<Rightarrow> Inl e
           | Inr ident \<Rightarrow> Inr (str ''UNK_'' @ ident, normalized, [], []))
      | Inr (Sound rendering sound_name) \<Rightarrow>
          (case compute_id cl normalized of
             Inl e \<Rightarrow> Inl e
           | Inr ident \<Rightarrow> Inr (str ''BIPA_'' @ ident, normalized, rendering, sound_name)))"

text \<open>
  The body of the loop: the entry as the loop leaves it (the loop assigns to its keys),
  the tuple added to \<open>parameters\<close> and the dictionary added to \<open>values\<close>. The
  dictionary literal evaluates its values in order: the language lookup of line 423
  comes before the \<open>slug\<close> of line 428.
\<close>

definition process_entry ::
  "collaborators \<Rightarrow> (pystr \<rightharpoonup> pystr) \<Rightarrow> (pystr \<rightharpoonup> pystr list) \<Rightarrow> nat \<Rightarrow> entry
     \<Rightarrow> error + (entry \<times> parameter \<times> pydict)" where
  "process_entry cl phoible_lang source_map counter e0 =
     (case mark_marginal e0 of
        Inl err \<Rightarrow> Inl err
      | Inr e1 \<Rightarrow>
     (let e = first_allophone e1 in
      case normalize_grapheme cl (segment_raw e) of
        Inl err \<Rightarrow> Inl err
      | Inr normalized \<Rightarrow>
     (case canonical_parameter cl normalized of
        Inl err \<Rightarrow> Inl err
      | Inr par \<Rightarrow>
     (case phoible_lang_get phoible_lang (inv_id e) of
        Inl err \<Rightarrow> Inl err
      | Inr lang \<Rightarrow>
     (case slug cl (source e) of
        Inl err \<Rightarrow> Inl err
      | Inr catalog \<Rightarrow>
          Inr (e, par,
               [(str ''ID'', PStr (str_of_nat counter)),
                (str ''Language_ID'', PStr lang),
                (str ''Parameter_ID'', PStr (fst par)),
                (str ''Value'', PStr (segment_raw e)),
                (str ''Contribution_ID'', pyval_of_opt (inv_id e)),
                (str ''Source'', PList (defaultdict_get source_map (inv_id e))),
                (str ''Catalog'', PStr catalog)]))))))"

subsection \<open>The loop and the tables, lines 389 to 447\<close>

record makecldf_state =
  data :: "entry list"
  parameters :: "parameter list"
  values' :: "pydict list"
  counter :: nat

fun process_entries ::
  "collaborators \<Rightarrow> (pystr \<rightharpoonup> pystr) \<Rightarrow> (pystr \<rightharpoonup> pystr list) \<Rightarrow> makecldf_state
     \<Rightarrow> entry list \<Rightarrow> error + makecldf_state" where
  "process_entries cl phoible_lang source_map st [] = Inr st"
| "process_entries cl phoible_lang source_map st (e0 # es) =
     (case process_entry cl phoible_lang source_map (counter st) e0 of
        Inl err \<Rightarrow> Inl err
      | Inr (e, par, val) \<Rightarrow>
          process_entries cl phoible_lang source_map
            \<lparr>data = data st @ [e],
             parameters = parameters st @ [par],
             values' = values' st @ [val],
             counter = counter st + 1\<rparr> es)"

text \<open>
  Lines 434 to 437: one dictionary for each distinct tuple. \<open>set(parameters)\<close> compares
  whole tuples and has no order, so the table is a set.
\<close>

definition segments :: "parameter list \<Rightarrow> pydict set" where
  "segments pars =
     (\<lambda>(ident, normalized, bipa_grapheme, desc).
        [(str ''ID'', PStr ident), (str ''Name'', PStr normalized),
         (str ''BIPA'', PStr bipa_grapheme), (str ''Description'', PStr desc)]) ` set pars"

text \<open>
  What \<open>cmd_makecldf\<close> computes from the rows of the bibliography mapping, the rows of
  \<open>languages.csv\<close> and the entries of the readers: the entries as the loop leaves them
  and the two tables that depend on them. The language table (lines 355 to 383) depends
  neither on the entries nor on the bibliography and is left out; the model is of a run
  in which building it raises nothing.
\<close>

record tables =
  Entries :: "entry list"
  ValueTable :: "pydict list"
  ParameterTable :: "pydict set"

definition cmd_makecldf ::
  "collaborators \<Rightarrow> row list \<Rightarrow> row list \<Rightarrow> entry list \<Rightarrow> error + tables" where
  "cmd_makecldf cl bibtex_rows language_rows raw_data =
     (case build_source_map Map.empty bibtex_rows of
        Inl err \<Rightarrow> Inl err
      | Inr source_map \<Rightarrow>
     (case build_phoible_lang Map.empty language_rows of
        Inl err \<Rightarrow> Inl err
      | Inr phoible_lang \<Rightarrow>
     (case process_entries cl phoible_lang source_map
             \<lparr>data = [], parameters = [], values' = [], counter = 1\<rparr> raw_data of
        Inl err \<Rightarrow> Inl err
      | Inr st \<Rightarrow>
          Inr \<lparr>Entries = data st,
               ValueTable = values' st,
               ParameterTable = segments (parameters st)\<rparr>)))"

section \<open>Sample collaborators\<close>

text \<open>
  Concrete inputs need concrete collaborators. On text made of ASCII characters,
  canonical composition and transliteration change nothing. \<open>slug\<close> puts such a text in
  lower case, removes the characters of \<open>string.punctuation\<close> and the white space, and
  asserts that letters, digits and spaces are all that is left: a control character
  such as U+0001 is neither punctuation nor white space, stays, and fails the assertion.
  The sample reference knows the three sounds written \<open>a\<close>, \<open>p\<close> and \<open>x\<close>, raises
  \<open>ValueError\<close> at the text \<open>//\<close> as \<open>clts.bipa\<close> does, and takes any other text for
  unknown. The samples are used at ASCII inputs only.
\<close>

definition ascii_punctuation :: "nat \<Rightarrow> bool" where
  "ascii_punctuation c \<longleftrightarrow>
     (33 \<le> c \<and> c \<le> 47) \<or> (58 \<le> c \<and> c \<le> 64) \<or> (91 \<le> c \<and> c \<le> 96) \<or> (123 \<le> c \<and> c \<le> 126)"

definition ascii_space :: "nat \<Rightarrow> bool" where
  "ascii_space c \<longleftrightarrow> (9 \<le> c \<and> c \<le> 13) \<or> (28 \<le> c \<and> c \<le> 32)"

definition ascii_alnum :: "nat \<Rightarrow> bool" where
  "ascii_alnum c \<longleftrightarrow> (48 \<le> c \<and> c \<le> 57) \<or> (65 \<le> c \<and> c \<le> 90) \<or> (97 \<le> c \<and> c \<le> 122)"

definition ascii_slug :: "pystr \<Rightarrow> error + pystr" where
  "ascii_slug text =
     (let res = map (\<lambda>c. if 65 \<le> c \<and> c \<le> 90 then c + 32 else c)
                  (filter (\<lambda>c. \<not> ascii_punctuation c \<and> \<not> ascii_space c) text)
      in if list_all ascii_alnum res then Inr res else Inl AssertionError)"

definition sample_bipa :: "pystr \<Rightarrow> error + sound" where
  "sample_bipa text =
     (if text = str ''a'' then Inr (Sound (str ''a'') (str ''unrounded open front vowel''))
      else if text = str ''p''
        then Inr (Sound (str ''p'') (str ''voiceless bilabial stop consonant''))
      else if text = str ''x''
        then Inr (Sound (str ''x'') (str ''voiceless velar fricative consonant''))
      else if text = str ''//'' then Inl ValueError
      else Inr UnknownSound)"

definition sample :: collaborators where
  "sample = \<lparr>nfc = (\<lambda>text. text), unidecode = (\<lambda>text. text), slug = ascii_slug,
             bipa = sample_bipa\<rparr>"

section \<open>Sample inputs\<close>

text \<open>
  Two entries as the UPSID reader builds them, one flagged anomalous with the segment
  \<open>(x)\<close>, one not flagged with the segment \<open><a>\<close>; an entry of the common reader for
  source AA with the segment \<open>(a)\<close>; and the rows of the two mapping files: languages for
  the inventories 1 and 2, a bibliography key for inventory 2 only.
\<close>

definition flagged_entry :: entry where
  "flagged_entry =
     \<lparr>lang_id = str ''UPSID_X'', source = str ''PHOIBLE_UPSID'', inv_id = Some (str ''1''),
      segment_raw = str ''(x)'', marginal = Some (str ''True'')\<rparr>"

definition angle_entry :: entry where
  "angle_entry =
     \<lparr>lang_id = str ''UPSID_X'', source = str ''PHOIBLE_UPSID'', inv_id = Some (str ''1''),
      segment_raw = str ''<a>'', marginal = Some (str ''False'')\<rparr>"

definition paren_entry :: entry where
  "paren_entry =
     \<lparr>lang_id = str ''AA_Y'', source = str ''PHOIBLE_AA'', inv_id = Some (str ''2''),
      segment_raw = str ''(a)'', marginal = None\<rparr>"

definition language_rows :: "row list" where
  "language_rows =
     [map_of [(str ''ID'', str ''1_x''), (str ''Name'', str ''X''), (str ''Glottocode'', [])],
      map_of [(str ''ID'', str ''2_y''), (str ''Name'', str ''Y''), (str ''Glottocode'', [])]]"

definition bibtex_rows :: "row list" where
  "bibtex_rows = [map_of [(str ''InventoryID'', str ''2''), (str ''BibtexKey'', str ''key2'')]]"

text \<open>
  An inventory file with the columns \<open>Phoneme\<close> and \<open>Segment\<close>: the first row names the
  inventory and the language, the second has an empty \<open>Segment\<close> cell, the third leaves
  inventory and language empty.
\<close>

definition inventory_fieldnames :: "pystr list" where
  "inventory_fieldnames =
     [str ''InventoryID'', str ''LanguageName'', str ''Phoneme'', str ''Segment'']"

definition inventory_rows :: "row list" where
  "inventory_rows =
     [map_of [(str ''InventoryID'', str ''A''), (str ''LanguageName'', str ''L1''),
              (str ''Phoneme'', str ''b''), (str ''Segment'', str ''p'')],
      map_of [(str ''InventoryID'', []), (str ''LanguageName'', []),
              (str ''Phoneme'', str ''d''), (str ''Segment'', [])],
      map_of [(str ''InventoryID'', []), (str ''LanguageName'', []),
              (str ''Phoneme'', []), (str ''Segment'', str ''t'')]]"

text \<open>
  What the run on the two entries \<open><a>\<close> and \<open>(a)\<close> yields: two records of the value
  table and one segment.
\<close>

definition sample_tables :: tables where
  "sample_tables =
     \<lparr>Entries =
        [angle_entry\<lparr>segment_raw := str ''a'', marginal := Some (str ''True'')\<rparr>,
         paren_entry\<lparr>marginal := Some (str ''False'')\<rparr>],
      ValueTable =
        [[(str ''ID'', PStr (str ''1'')),
          (str ''Language_ID'', PStr (str ''1_x'')),
          (str ''Parameter_ID'', PStr (str ''BIPA_a_u0061'')),
          (str ''Value'', PStr (str ''a'')),
          (str ''Contribution_ID'', PStr (str ''1'')),
          (str ''Source'', PList []),
          (str ''Catalog'', PStr (str ''phoibleupsid''))],
         [(str ''ID'', PStr (str ''2'')),
          (str ''Language_ID'', PStr (str ''2_y'')),
          (str ''Parameter_ID'', PStr (str ''BIPA_a_u0061'')),
          (str ''Value'', PStr (str ''(a)'')),
          (str ''Contribution_ID'', PStr (str ''2'')),
          (str ''Source'', PList [str ''key2'']),
          (str ''Catalog'', PStr (str ''phoibleaa''))]],
      ParameterTable =
        {[(str ''ID'', PStr (str ''BIPA_a_u0061'')), (str ''Name'', PStr (str ''a'')),
          (str ''BIPA'', PStr (str ''a'')),
          (str ''Description'', PStr (str ''unrounded open front vowel''))]}\<rparr>"

section \<open>The code point fingerprint\<close>

declare hex_upper.simps [simp del]
declare str_of_nat.simps [simp del]

lemma str_simps:
  "str [] = []"
  "str (c # cs) = of_char c # str cs"
  by (simp_all add: str_def)

lemma replicate_numeral_Cons: "replicate (numeral k) x = x # replicate (pred_numeral k) x"
  by (simp add: numeral_eq_Suc)

text \<open>Equations that compute a fingerprint at a concrete text.\<close>

lemmas fingerprint_eval =
  unicode_repr_def format_04X_def hex_upper.simps hex_digit_def str_simps
  replicate_numeral_Cons

lemma hex_digit_cases:
  assumes "d < 16"
  shows "hex_digit d = (if d < 10 then 48 + d else 55 + d)"
proof -
  from assms have "d = 0 \<or> d = 1 \<or> d = 2 \<or> d = 3 \<or> d = 4 \<or> d = 5 \<or> d = 6 \<or> d = 7 \<or> d = 8
      \<or> d = 9 \<or> d = 10 \<or> d = 11 \<or> d = 12 \<or> d = 13 \<or> d = 14 \<or> d = 15"
    by arith
  then show ?thesis
    by (elim disjE) (simp_all add: hex_digit_def)
qed

lemma hex_digit_val_inv: "d < 16 \<Longrightarrow> hex_digit_val (hex_digit d) = d"
  by (simp add: hex_digit_cases hex_digit_val_def)

lemma hex_val_snoc: "hex_val (ds @ [c]) = 16 * hex_val ds + hex_digit_val c"
  by (simp add: hex_val_def)

lemma hex_val_hex_upper: "hex_val (hex_upper n) = n"
proof (induction n rule: hex_upper.induct)
  case (1 n)
  show ?case
  proof (cases "n < 16")
    case True
    then show ?thesis
      by (subst hex_upper.simps) (simp add: hex_val_def hex_digit_val_inv)
  next
    case False
    then have "hex_val (hex_upper n) =
        16 * hex_val (hex_upper (n div 16)) + hex_digit_val (hex_digit (n mod 16))"
      by (subst hex_upper.simps) (simp add: hex_val_snoc)
    with False 1 show ?thesis
      by (simp add: hex_digit_val_inv)
  qed
qed

lemma hex_val_zeros: "hex_val (replicate k 48 @ ds) = hex_val ds"
  by (induction k) (simp_all add: hex_val_def hex_digit_val_def)

lemma hex_val_format_04X: "hex_val (format_04X n) = n"
  by (simp add: format_04X_def hex_val_zeros hex_val_hex_upper)

text \<open>A token holds digits and the letters A to F only: neither \<open>u\<close> nor an underscore.\<close>

lemma hex_upper_chars: "c \<in> set (hex_upper n) \<Longrightarrow> c < 71"
proof (induction n rule: hex_upper.induct)
  case (1 n)
  show ?case
  proof (cases "n < 16")
    case True
    with 1(2) show ?thesis
      by (subst (asm) hex_upper.simps) (simp add: hex_digit_cases)
  next
    case False
    with 1(2) have "c \<in> set (hex_upper (n div 16)) \<or> c = hex_digit (n mod 16)"
      by (subst (asm) hex_upper.simps) auto
    with False 1(1) show ?thesis
      by (auto simp: hex_digit_cases)
  qed
qed

lemma format_04X_chars: "c \<in> set (format_04X n) \<Longrightarrow> c < 71"
  by (auto simp: format_04X_def dest: hex_upper_chars)

lemma format_04X_no_u: "117 \<notin> set (format_04X n)"
  using format_04X_chars [of 117 n] by auto

lemma unicode_repr_Nil: "unicode_repr [] = []"
  by (simp add: unicode_repr_def)

lemma unicode_repr_Cons: "unicode_repr (c # cs) = 117 # format_04X c @ unicode_repr cs"
  by (simp add: unicode_repr_def str_simps)

lemma unicode_repr_head: "unicode_repr cs = [] \<or> hd (unicode_repr cs) = 117"
  by (cases cs) (simp_all add: unicode_repr_Cons unicode_repr_Nil)

lemma takeWhile_token:
  assumes "117 \<notin> set tok" and "rest = [] \<or> hd rest = 117"
  shows "takeWhile (\<lambda>c. c \<noteq> 117) (tok @ rest) = tok"
  using assms by (cases rest) (auto simp: takeWhile_append)

lemma unicode_repr_eqD: "unicode_repr s = unicode_repr t \<Longrightarrow> s = t"
proof (induction s arbitrary: t)
  case Nil
  then show ?case
    by (cases t) (simp_all add: unicode_repr_Cons unicode_repr_Nil)
next
  case (Cons c cs)
  show ?case
  proof (cases t)
    case Nil
    with Cons.prems show ?thesis
      by (simp add: unicode_repr_Cons unicode_repr_Nil)
  next
    case (Cons d ds)
    with Cons.prems have eq: "format_04X c @ unicode_repr cs = format_04X d @ unicode_repr ds"
      by (simp add: unicode_repr_Cons)
    have "format_04X c = takeWhile (\<lambda>c. c \<noteq> 117) (format_04X c @ unicode_repr cs)"
      by (simp add: takeWhile_token format_04X_no_u unicode_repr_head)
    also have "\<dots> = format_04X d"
      unfolding eq by (simp add: takeWhile_token format_04X_no_u unicode_repr_head)
    finally have tok: "format_04X c = format_04X d" .
    then have "hex_val (format_04X c) = hex_val (format_04X d)"
      by simp
    then have "c = d"
      by (simp add: hex_val_format_04X)
    moreover from eq tok have "unicode_repr cs = unicode_repr ds"
      by simp
    then have "cs = ds"
      by (rule Cons.IH)
    ultimately show ?thesis
      using Cons by simp
  qed
qed

lemma unicode_repr_chars: "c \<in> set (unicode_repr s) \<Longrightarrow> c = 117 \<or> c < 71"
  by (induction s) (auto simp: unicode_repr_Nil unicode_repr_Cons dest: format_04X_chars)

text \<open>
  The fingerprint has no underscore, so it is what follows the last underscore of an
  identifier, whatever the label and the prefix before it are.
\<close>

lemma takeWhile_rev_suffix:
  assumes "x \<notin> set ys"
  shows "takeWhile (\<lambda>c. c \<noteq> x) (rev (xs @ x # ys)) = rev ys"
  using assms by (simp add: takeWhile_append)

lemma fingerprint_suffix_eq:
  assumes "pre @ 95 # unicode_repr s = pre' @ 95 # unicode_repr t"
  shows "s = t"
proof -
  have no: "95 \<notin> set (unicode_repr u)" for u
    using unicode_repr_chars [of 95 u] by auto
  have "rev (unicode_repr s) = takeWhile (\<lambda>c. c \<noteq> 95) (rev (pre @ 95 # unicode_repr s))"
    by (simp only: takeWhile_rev_suffix [OF no])
  also have "\<dots> = rev (unicode_repr t)"
    by (simp only: assms takeWhile_rev_suffix [OF no])
  finally have "unicode_repr s = unicode_repr t"
    by simp
  then show ?thesis
    by (rule unicode_repr_eqD)
qed

lemma compute_id_shape:
  assumes "compute_id cl s = Inr ident"
  shows "\<exists>label. ident = label @ 95 # unicode_repr s"
  using assms by (auto simp: compute_id_def str_simps split: sum.splits)

text \<open>
  C7. \<open>compute_id\<close> is a function of its text (and of the two library functions), and
  its fingerprint half tells any two code point sequences apart: what it returns is the
  label, an underscore and the fingerprint, and two texts with the same fingerprint are
  the same text, code points above U+FFFF and their longer tokens included. So two
  texts for which it returns the same identifier are the same text, whatever the labels
  are.
\<close>

theorem compute_id_fingerprint_injective:
  "compute_id cl s =
     (case slug cl (unidecode cl s) of
        Inl e \<Rightarrow> Inl e
      | Inr label \<Rightarrow> Inr (label @ str ''_'' @ unicode_repr s))
   \<and> (unicode_repr s = unicode_repr t \<longleftrightarrow> s = t)
   \<and> (compute_id cl s = Inr ident \<and> compute_id cl' t = Inr ident \<longrightarrow> s = t)"
proof (intro conjI iffI impI)
  show "compute_id cl s =
     (case slug cl (unidecode cl s) of
        Inl e \<Rightarrow> Inl e
      | Inr label \<Rightarrow> Inr (label @ str ''_'' @ unicode_repr s))"
    by (simp add: compute_id_def)
next
  assume both: "compute_id cl s = Inr ident \<and> compute_id cl' t = Inr ident"
  then obtain label where "ident = label @ 95 # unicode_repr s"
    using compute_id_shape by blast
  moreover from both obtain label' where "ident = label' @ 95 # unicode_repr t"
    using compute_id_shape by blast
  ultimately have "label @ 95 # unicode_repr s = label' @ 95 # unicode_repr t"
    by simp
  then show "s = t"
    by (rule fingerprint_suffix_eq)
next
  assume "unicode_repr s = unicode_repr t"
  then show "s = t"
    by (rule unicode_repr_eqD)
next
  assume "s = t"
  then show "unicode_repr s = unicode_repr t"
    by simp
qed

lemmas slug_eval = ascii_slug_def ascii_punctuation_def ascii_space_def ascii_alnum_def

theorem compute_id_fingerprint_injective_witness:
  "compute_id sample (str ''p'') = Inr (str ''p_u0070'')
   \<and> compute_id sample (str ''P'') = Inr (str ''p_u0050'')
   \<and> unicode_repr [97, 768] = str ''u0061u0300''
   \<and> unicode_repr [225] = str ''u00E1''
   \<and> unicode_repr [97, 768] \<noteq> unicode_repr [225]
   \<and> unicode_repr [65536] = str ''u10000''
   \<and> unicode_repr [1, 0] = str ''u0001u0000''
   \<and> unicode_repr [65536] \<noteq> unicode_repr [1, 0]"
proof -
  have "compute_id sample (str ''p'') = Inr (str ''p_u0070'')"
    by (simp add: compute_id_def sample_def slug_eval fingerprint_eval)
  moreover have "compute_id sample (str ''P'') = Inr (str ''p_u0050'')"
    by (simp add: compute_id_def sample_def slug_eval fingerprint_eval)
  moreover have "unicode_repr [97, 768] = str ''u0061u0300''"
    by (simp add: fingerprint_eval)
  moreover have "unicode_repr [225] = str ''u00E1''"
    by (simp add: fingerprint_eval)
  moreover have "unicode_repr [65536] = str ''u10000''"
    by (simp add: fingerprint_eval)
  moreover have "unicode_repr [1, 0] = str ''u0001u0000''"
    by (simp add: fingerprint_eval)
  moreover have "unicode_repr [97, 768] \<noteq> unicode_repr [225]"
    using compute_id_fingerprint_injective [of sample "[97, 768]" "[225]"] by simp
  moreover have "unicode_repr [65536] \<noteq> unicode_repr [1, 0]"
    using compute_id_fingerprint_injective [of sample "[65536]" "[1, 0]"] by simp
  ultimately show ?thesis
    by blast
qed

section \<open>Normalisation: when it returns, and what\<close>

lemma strip_ends_Nil_iff:
  assumes "t \<noteq> []" and "hd t = a" and "last t = b" and "a \<noteq> b"
  shows "strip_ends t = [] \<longleftrightarrow> t = [a, b]"
proof (cases t)
  case Nil
  with assms show ?thesis by simp
next
  case (Cons x xs)
  show ?thesis
  proof (cases xs)
    case Nil
    with Cons assms show ?thesis by simp
  next
    case (Cons y ys)
    with \<open>t = x # xs\<close> assms show ?thesis
      by (auto simp: strip_ends_def)
  qed
qed

lemma strip_ends_wrap:
  assumes "strip_ends t \<noteq> []"
  shows "t = hd t # strip_ends t @ [last t]"
proof (cases t)
  case Nil
  with assms show ?thesis by (simp add: strip_ends_def)
next
  case (Cons x xs)
  with assms have "xs \<noteq> []"
    by (auto simp: strip_ends_def)
  with Cons show ?thesis
    by (simp add: strip_ends_def)
qed

lemma length_strip_ends: "t \<noteq> [] \<Longrightarrow> length (strip_ends t) < length t"
  by (cases t) (simp_all add: strip_ends_def)

text \<open>The function as one chain of tests on the composed text.\<close>

lemma normalize_grapheme_unfold:
  "normalize_grapheme cl s =
     (if nfc cl s = [] then Inl IndexError
      else if hd (nfc cl s) = 40 \<and> last (nfc cl s) = 41
      then (if strip_ends (nfc cl s) = [] then Inl IndexError
            else if hd (strip_ends (nfc cl s)) = 91 \<and> last (strip_ends (nfc cl s)) = 93
            then Inr (strip_ends (strip_ends (nfc cl s)))
            else Inr (strip_ends (nfc cl s)))
      else if hd (nfc cl s) = 91 \<and> last (nfc cl s) = 93
      then Inr (strip_ends (nfc cl s))
      else Inr (nfc cl s))"
  by (auto simp add: normalize_grapheme_def enclosed_def Let_def)

lemma normalize_grapheme_error: "normalize_grapheme cl s = Inl e \<Longrightarrow> e = IndexError"
  by (auto simp: normalize_grapheme_unfold split: if_splits)

lemma normalize_grapheme_raises:
  "normalize_grapheme cl s = Inl IndexError \<longleftrightarrow> nfc cl s = [] \<or> nfc cl s = str ''()''"
proof (cases "nfc cl s = []")
  case True
  then show ?thesis by (simp add: normalize_grapheme_unfold)
next
  case False
  show ?thesis
  proof (cases "hd (nfc cl s) = 40 \<and> last (nfc cl s) = 41")
    case True
    with False have "strip_ends (nfc cl s) = [] \<longleftrightarrow> nfc cl s = [40, 41]"
      by (intro strip_ends_Nil_iff) simp_all
    with True False show ?thesis
      by (simp add: normalize_grapheme_unfold str_simps)
  next
    case paren: False
    then have "nfc cl s \<noteq> [40, 41]"
      by auto
    with False paren show ?thesis
      by (simp add: normalize_grapheme_unfold str_simps)
  qed
qed

lemma normalize_grapheme_empty:
  "normalize_grapheme cl s = Inr [] \<longleftrightarrow> nfc cl s = str ''[]'' \<or> nfc cl s = str ''([])''"
proof (cases "nfc cl s = []")
  case True
  then show ?thesis
    by (simp add: normalize_grapheme_unfold str_simps)
next
  case ne: False
  show ?thesis
  proof (cases "hd (nfc cl s) = 40 \<and> last (nfc cl s) = 41")
    case paren: True
    show ?thesis
    proof (cases "strip_ends (nfc cl s) = []")
      case True
      with ne paren have "nfc cl s = [40, 41]"
        using strip_ends_Nil_iff [of "nfc cl s" 40 41] by simp
      with True show ?thesis
        by (simp add: normalize_grapheme_unfold str_simps)
    next
      case inner: False
      then have wrap: "nfc cl s = 40 # strip_ends (nfc cl s) @ [41]"
        using strip_ends_wrap [of "nfc cl s"] paren by simp
      have "strip_ends (strip_ends (nfc cl s)) = [] \<and> hd (strip_ends (nfc cl s)) = 91
            \<and> last (strip_ends (nfc cl s)) = 93 \<longleftrightarrow> strip_ends (nfc cl s) = [91, 93]"
        using strip_ends_Nil_iff [of "strip_ends (nfc cl s)" 91 93] inner by auto
      moreover have "strip_ends (nfc cl s) = [91, 93] \<longleftrightarrow> nfc cl s = [40, 91, 93, 41]"
        using wrap by (auto simp: strip_ends_def)
      ultimately show ?thesis
        using ne paren inner by (auto simp: normalize_grapheme_unfold str_simps)
    qed
  next
    case noparen: False
    have "strip_ends (nfc cl s) = [] \<and> hd (nfc cl s) = 91 \<and> last (nfc cl s) = 93
          \<longleftrightarrow> nfc cl s = [91, 93]"
      using strip_ends_Nil_iff [of "nfc cl s" 91 93] ne by auto
    then show ?thesis
      using ne noparen by (auto simp: normalize_grapheme_unfold str_simps)
  qed
qed

text \<open>
  C4 does not hold of the code. The text \<open>()\<close> is not empty, yet the call raises
  \<open>IndexError\<close>: stripping the parentheses leaves the empty string, and the second test
  (line 47) indexes it. The text \<open>[]\<close>, stripped by that second test, gives the empty
  string as the claim says. In general, the call raises whenever the composed text is
  \<open>()\<close>, and returns the empty string whenever it is \<open>[]\<close>.
\<close>

theorem normalize_grapheme_parens_raise:
  "(nfc cl s = str ''()'' \<longrightarrow> normalize_grapheme cl s = Inl IndexError)
   \<and> (nfc cl s = str ''[]'' \<longrightarrow> normalize_grapheme cl s = Inr [])"
  by (simp add: normalize_grapheme_unfold str_simps strip_ends_def)

theorem normalize_grapheme_parens_raise_witness:
  "nfc sample (str ''()'') = str ''()''
   \<and> normalize_grapheme sample (str ''()'') = Inl IndexError
   \<and> nfc sample (str ''[]'') = str ''[]''
   \<and> normalize_grapheme sample (str ''[]'') = Inr []"
proof -
  have a: "nfc sample (str ''()'') = str ''()''" and b: "nfc sample (str ''[]'') = str ''[]''"
    by (simp_all add: sample_def)
  from normalize_grapheme_parens_raise [of sample "str ''()''"]
    normalize_grapheme_parens_raise [of sample "str ''[]''"] a b
  show ?thesis
    by simp
qed

section \<open>Normalising twice\<close>

text \<open>
  C5, as the claim states it, fails: of two nested pairs of parentheses each call strips
  one, so the second call returns \<open>a\<close> where the first returned \<open>(a)\<close>.
\<close>

theorem normalize_twice_nested:
  "normalize_grapheme sample (str ''((a))'') = Inr (str ''(a)'')
   \<and> normalize_twice sample (str ''((a))'') = Inr (str ''a'')
   \<and> normalize_twice sample (str ''((a))'') \<noteq> normalize_grapheme sample (str ''((a))'')"
  by (simp add: normalize_twice_def normalize_grapheme_unfold sample_def str_simps
      strip_ends_def)

text \<open>
  C5, amended. Let the first call return \<open>t\<close>, a text that composition leaves as it is.
  Then the second call returns the same as the first exactly when \<open>t\<close> is not empty and
  is enclosed neither in parentheses nor in square brackets.
\<close>

theorem normalize_twice_same_iff:
  assumes "normalize_grapheme cl s = Inr t" and "nfc cl t = t"
  shows "normalize_twice cl s = normalize_grapheme cl s \<longleftrightarrow>
         t \<noteq> [] \<and> \<not> (hd t = of_char CHR ''('' \<and> last t = of_char CHR '')'')
           \<and> \<not> (hd t = of_char CHR ''['' \<and> last t = of_char CHR '']'')"
proof -
  have twice: "normalize_twice cl s = normalize_grapheme cl t"
    using assms(1) by (simp add: normalize_twice_def)
  show ?thesis
  proof (cases "t = []")
    case True
    with assms twice show ?thesis
      by (simp add: normalize_grapheme_unfold)
  next
    case ne: False
    have l1: "length (strip_ends t) < length t"
      using ne by (rule length_strip_ends)
    have l2: "strip_ends t \<noteq> [] \<Longrightarrow> length (strip_ends (strip_ends t)) < length t"
      using length_strip_ends [of "strip_ends t"] l1 by simp
    have s1: "strip_ends t \<noteq> t"
      using l1 by auto
    have s2: "strip_ends t \<noteq> [] \<Longrightarrow> strip_ends (strip_ends t) \<noteq> t"
      using l2 by auto
    show ?thesis
      unfolding twice assms(1)
      using ne s1 s2 assms(2) by (simp add: normalize_grapheme_unfold)
  qed
qed

theorem normalize_twice_same_iff_witness:
  "normalize_grapheme sample (str ''(a)'') = Inr (str ''a'')
   \<and> nfc sample (str ''a'') = str ''a''
   \<and> normalize_twice sample (str ''(a)'') = normalize_grapheme sample (str ''(a)'')"
proof -
  have a: "normalize_grapheme sample (str ''(a)'') = Inr (str ''a'')"
    by (simp add: normalize_grapheme_unfold sample_def str_simps strip_ends_def)
  have b: "nfc sample (str ''a'') = str ''a''"
    by (simp add: sample_def)
  have "normalize_twice sample (str ''(a)'') = normalize_grapheme sample (str ''(a)'')"
    using normalize_twice_same_iff [OF a b] by (simp add: str_simps)
  with a b show ?thesis
    by simp
qed

section \<open>One entry of the aggregation\<close>

text \<open>Equations that compute the model at a concrete input.\<close>

lemmas entry_eval =
  process_entry_def mark_marginal_def first_allophone_def enclosed_def strip_ends_def
  normalize_grapheme_def canonical_parameter_def compute_id_def phoible_lang_get_def
  getitem_def defaultdict_get_def pyval_of_opt_def str_of_bool_def
  sample_def sample_bipa_def slug_eval str_of_nat.simps fingerprint_eval Let_def

lemma process_entry_InrD:
  assumes "process_entry cl pl sm k e0 = Inr (e, p, v)"
  shows "\<exists>e1 n lang catalog. mark_marginal e0 = Inr e1 \<and> e = first_allophone e1
           \<and> normalize_grapheme cl (segment_raw e) = Inr n
           \<and> canonical_parameter cl n = Inr p
           \<and> phoible_lang_get pl (inv_id e) = Inr lang
           \<and> slug cl (source e) = Inr catalog
           \<and> v = [(str ''ID'', PStr (str_of_nat k)),
                  (str ''Language_ID'', PStr lang),
                  (str ''Parameter_ID'', PStr (fst p)),
                  (str ''Value'', PStr (segment_raw e)),
                  (str ''Contribution_ID'', pyval_of_opt (inv_id e)),
                  (str ''Source'', PList (defaultdict_get sm (inv_id e))),
                  (str ''Catalog'', PStr catalog)]"
  using assms by (auto simp: process_entry_def Let_def split: sum.splits)

lemma mark_marginal_flag:
  assumes "mark_marginal e0 = Inr e1"
  shows "marginal e1 = Some (str_of_bool
           ((hd (segment_raw e0) = of_char CHR ''<'' \<and> last (segment_raw e0) = of_char CHR ''>'')
            \<or> (hd (segment_raw e0) = of_char CHR 0x27
                \<and> last (segment_raw e0) = of_char CHR 0x27)))"
  using assms
  by (auto simp: mark_marginal_def enclosed_def str_of_bool_def split: if_splits)

lemma mark_marginal_ignores_flag: "mark_marginal (e0\<lparr>marginal := m\<rparr>) = mark_marginal e0"
  by (simp add: mark_marginal_def split: sum.splits)

lemma mark_marginal_keeps:
  assumes "mark_marginal e0 = Inr e1"
  shows "inv_id e1 = inv_id e0 \<and> source e1 = source e0 \<and> lang_id e1 = lang_id e0"
  using assms
  by (auto simp: mark_marginal_def enclosed_def split: if_splits)

lemma first_allophone_keeps:
  "inv_id (first_allophone e) = inv_id e \<and> source (first_allophone e) = source e
   \<and> lang_id (first_allophone e) = lang_id e \<and> marginal (first_allophone e) = marginal e"
  by (simp add: first_allophone_def)

lemma process_entry_ignores_flag:
  "process_entry cl pl sm k (e0\<lparr>marginal := m\<rparr>) = process_entry cl pl sm k e0"
  by (simp add: process_entry_def mark_marginal_ignores_flag)

lemma process_entry_inv_id:
  assumes "process_entry cl pl sm k e0 = Inr (e, p, v)"
  shows "inv_id e = inv_id e0"
  using process_entry_InrD [OF assms] mark_marginal_keeps first_allophone_keeps by metis

text \<open>
  C1, as the claim states it, fails. The UPSID reader flags a row whose column
  \<open>anomalous\<close> is 1, here with the segment \<open>(x)\<close>; the loop then assigns the flag
  \<open>False\<close>, since parentheses are not among the shapes it tests.
\<close>

theorem flagged_parenthesised_entry_ends_unflagged:
  "upsid_row [str ''1'' \<mapsto> \<lparr>name' = str ''X'', id' = Some (str ''1'')\<rparr>]
     [str ''7'' \<mapsto> str ''(x)'']
     (map_of [(str ''upsidLangNum'', str ''1''), (str ''upsidCCID'', str ''7''),
              (str ''anomalous'', str ''1'')]) = Inr flagged_entry
   \<and> marginal flagged_entry = Some (str ''True'')
   \<and> process_entry sample [str ''1'' \<mapsto> str ''1_x''] Map.empty 1 flagged_entry =
       Inr (flagged_entry\<lparr>marginal := Some (str ''False'')\<rparr>,
            (str ''BIPA_x_u0078'', str ''x'', str ''x'',
             str ''voiceless velar fricative consonant''),
            [(str ''ID'', PStr (str ''1'')),
             (str ''Language_ID'', PStr (str ''1_x'')),
             (str ''Parameter_ID'', PStr (str ''BIPA_x_u0078'')),
             (str ''Value'', PStr (str ''(x)'')),
             (str ''Contribution_ID'', PStr (str ''1'')),
             (str ''Source'', PList []),
             (str ''Catalog'', PStr (str ''phoibleupsid''))])"
  by (simp add: upsid_row_def flagged_entry_def entry_eval)

text \<open>
  C1, amended. The test of the string's shape runs last and decides alone: when the loop
  body returns, the flag of the entry is \<open>True\<close> if the raw segment was enclosed in
  \<open><\<close> and \<open>>\<close> or in two straight quotes, and \<open>False\<close> otherwise; and the body computes
  the same from an entry whose reader had set any other flag.
\<close>

theorem marginal_overwritten:
  assumes "process_entry cl pl sm k e0 = Inr (e, p, v)"
  shows "marginal e = Some (str_of_bool
           ((hd (segment_raw e0) = of_char CHR ''<'' \<and> last (segment_raw e0) = of_char CHR ''>'')
            \<or> (hd (segment_raw e0) = of_char CHR 0x27
                \<and> last (segment_raw e0) = of_char CHR 0x27)))
         \<and> process_entry cl pl sm k (e0\<lparr>marginal := m\<rparr>) = Inr (e, p, v)"
proof -
  from assms obtain e1 where "mark_marginal e0 = Inr e1" and "e = first_allophone e1"
    using process_entry_InrD by blast
  then show ?thesis
    using assms mark_marginal_flag [of e0 e1]
    by (simp add: first_allophone_keeps process_entry_ignores_flag)
qed

theorem marginal_overwritten_witness:
  "process_entry sample [str ''1'' \<mapsto> str ''1_x''] Map.empty 1 angle_entry =
     Inr (angle_entry\<lparr>segment_raw := str ''a'', marginal := Some (str ''True'')\<rparr>,
          (str ''BIPA_a_u0061'', str ''a'', str ''a'', str ''unrounded open front vowel''),
          [(str ''ID'', PStr (str ''1'')),
           (str ''Language_ID'', PStr (str ''1_x'')),
           (str ''Parameter_ID'', PStr (str ''BIPA_a_u0061'')),
           (str ''Value'', PStr (str ''a'')),
           (str ''Contribution_ID'', PStr (str ''1'')),
           (str ''Source'', PList []),
           (str ''Catalog'', PStr (str ''phoibleupsid''))])
   \<and> marginal angle_entry = Some (str ''False'')
   \<and> marginal (angle_entry\<lparr>segment_raw := str ''a'', marginal := Some (str ''True'')\<rparr>) =
       Some (str_of_bool True)
   \<and> process_entry sample [str ''1'' \<mapsto> str ''1_x''] Map.empty 1
         (angle_entry\<lparr>marginal := None\<rparr>) =
       process_entry sample [str ''1'' \<mapsto> str ''1_x''] Map.empty 1 angle_entry"
proof -
  have run: "process_entry sample [str ''1'' \<mapsto> str ''1_x''] Map.empty 1 angle_entry =
     Inr (angle_entry\<lparr>segment_raw := str ''a'', marginal := Some (str ''True'')\<rparr>,
          (str ''BIPA_a_u0061'', str ''a'', str ''a'', str ''unrounded open front vowel''),
          [(str ''ID'', PStr (str ''1'')),
           (str ''Language_ID'', PStr (str ''1_x'')),
           (str ''Parameter_ID'', PStr (str ''BIPA_a_u0061'')),
           (str ''Value'', PStr (str ''a'')),
           (str ''Contribution_ID'', PStr (str ''1'')),
           (str ''Source'', PList []),
           (str ''Catalog'', PStr (str ''phoibleupsid''))])"
    by (simp add: angle_entry_def entry_eval)
  from marginal_overwritten [OF run, of None] run show ?thesis
    by (simp add: angle_entry_def str_of_bool_def)
qed

text \<open>
  C2. Two entries, whatever their readers, languages, inventories and sequence numbers:
  when the loop body returns for both and normalisation gives both the same text, both
  get the same tuple, and the dictionaries of both carry its identifier under
  \<open>Parameter_ID\<close>.
\<close>

theorem parameter_id_from_normalized_text:
  assumes "process_entry cl pl1 sm1 k1 a0 = Inr (a, p, v)"
    and "process_entry cl pl2 sm2 k2 b0 = Inr (b, q, w)"
    and "normalize_grapheme cl (segment_raw a) = normalize_grapheme cl (segment_raw b)"
  shows "p = q
         \<and> map_of v (str ''Parameter_ID'') = Some (PStr (fst p))
         \<and> map_of w (str ''Parameter_ID'') = Some (PStr (fst p))"
proof -
  from process_entry_InrD [OF assms(1)] obtain n where
    n: "normalize_grapheme cl (segment_raw a) = Inr n" "canonical_parameter cl n = Inr p"
    and v: "map_of v (str ''Parameter_ID'') = Some (PStr (fst p))"
    by (auto simp: str_simps)
  from process_entry_InrD [OF assms(2)] obtain m where
    m: "normalize_grapheme cl (segment_raw b) = Inr m" "canonical_parameter cl m = Inr q"
    and w: "map_of w (str ''Parameter_ID'') = Some (PStr (fst q))"
    by (auto simp: str_simps)
  from n(1) m(1) assms(3) have "n = m"
    by simp
  with n(2) m(2) v w show ?thesis
    by simp
qed

theorem parameter_id_from_normalized_text_witness:
  "process_entry sample [str ''1'' \<mapsto> str ''1_x''] Map.empty 1 angle_entry =
     Inr (angle_entry\<lparr>segment_raw := str ''a'', marginal := Some (str ''True'')\<rparr>,
          (str ''BIPA_a_u0061'', str ''a'', str ''a'', str ''unrounded open front vowel''),
          [(str ''ID'', PStr (str ''1'')),
           (str ''Language_ID'', PStr (str ''1_x'')),
           (str ''Parameter_ID'', PStr (str ''BIPA_a_u0061'')),
           (str ''Value'', PStr (str ''a'')),
           (str ''Contribution_ID'', PStr (str ''1'')),
           (str ''Source'', PList []),
           (str ''Catalog'', PStr (str ''phoibleupsid''))])
   \<and> process_entry sample [str ''2'' \<mapsto> str ''2_y''] [str ''2'' \<mapsto> [str ''key2'']] 2 paren_entry =
     Inr (paren_entry\<lparr>marginal := Some (str ''False'')\<rparr>,
          (str ''BIPA_a_u0061'', str ''a'', str ''a'', str ''unrounded open front vowel''),
          [(str ''ID'', PStr (str ''2'')),
           (str ''Language_ID'', PStr (str ''2_y'')),
           (str ''Parameter_ID'', PStr (str ''BIPA_a_u0061'')),
           (str ''Value'', PStr (str ''(a)'')),
           (str ''Contribution_ID'', PStr (str ''2'')),
           (str ''Source'', PList [str ''key2'']),
           (str ''Catalog'', PStr (str ''phoibleaa''))])
   \<and> normalize_grapheme sample (str ''a'') = normalize_grapheme sample (str ''(a)'')"
proof -
  have a: "process_entry sample [str ''1'' \<mapsto> str ''1_x''] Map.empty 1 angle_entry =
     Inr (angle_entry\<lparr>segment_raw := str ''a'', marginal := Some (str ''True'')\<rparr>,
          (str ''BIPA_a_u0061'', str ''a'', str ''a'', str ''unrounded open front vowel''),
          [(str ''ID'', PStr (str ''1'')),
           (str ''Language_ID'', PStr (str ''1_x'')),
           (str ''Parameter_ID'', PStr (str ''BIPA_a_u0061'')),
           (str ''Value'', PStr (str ''a'')),
           (str ''Contribution_ID'', PStr (str ''1'')),
           (str ''Source'', PList []),
           (str ''Catalog'', PStr (str ''phoibleupsid''))])"
    by (simp add: angle_entry_def entry_eval)
  have b: "process_entry sample [str ''2'' \<mapsto> str ''2_y''] [str ''2'' \<mapsto> [str ''key2'']] 2
       paren_entry =
     Inr (paren_entry\<lparr>marginal := Some (str ''False'')\<rparr>,
          (str ''BIPA_a_u0061'', str ''a'', str ''a'', str ''unrounded open front vowel''),
          [(str ''ID'', PStr (str ''2'')),
           (str ''Language_ID'', PStr (str ''2_y'')),
           (str ''Parameter_ID'', PStr (str ''BIPA_a_u0061'')),
           (str ''Value'', PStr (str ''(a)'')),
           (str ''Contribution_ID'', PStr (str ''2'')),
           (str ''Source'', PList [str ''key2'']),
           (str ''Catalog'', PStr (str ''phoibleaa''))])"
    by (simp add: paren_entry_def entry_eval)
  have c: "normalize_grapheme sample
        (segment_raw (angle_entry\<lparr>segment_raw := str ''a'', marginal := Some (str ''True'')\<rparr>)) =
      normalize_grapheme sample (segment_raw (paren_entry\<lparr>marginal := Some (str ''False'')\<rparr>))"
    by (simp add: paren_entry_def entry_eval)
  from parameter_id_from_normalized_text [OF a b c] a b c show ?thesis
    by (simp add: paren_entry_def)
qed

text \<open>
  C8 does not hold of the code. The branch for a text that the reference does not
  recognise (line 411) calls \<open>compute_id\<close>, and \<open>slug\<close> in it raises on a text that
  leaves it something other than letters, digits and spaces; the lookup of line 409
  raises on some texts, too. Nothing catches either exception: the loop body raises
  what the library raised, and no tuple with the prefix \<open>UNK_\<close> is recorded.
\<close>

theorem unknown_segment_raises:
  assumes "mark_marginal e0 = Inr e1"
    and "normalize_grapheme cl (segment_raw (first_allophone e1)) = Inr n"
  shows "(bipa cl n = Inr UnknownSound \<and> slug cl (unidecode cl n) = Inl err
            \<longrightarrow> process_entry cl pl sm k e0 = Inl err)
         \<and> (bipa cl n = Inl err \<longrightarrow> process_entry cl pl sm k e0 = Inl err)
         \<and> (bipa cl n = Inr UnknownSound \<and> slug cl (unidecode cl n) = Inr label
            \<longrightarrow> canonical_parameter cl n =
                 Inr (str ''UNK_'' @ label @ str ''_'' @ unicode_repr n, n, [], []))"
  using assms
  by (simp add: process_entry_def canonical_parameter_def compute_id_def Let_def)

theorem unknown_segment_raises_witness:
  "bipa sample [97, 1] = Inr UnknownSound
   \<and> slug sample (unidecode sample [97, 1]) = Inl AssertionError
   \<and> process_entry sample [str ''1'' \<mapsto> str ''1_x''] Map.empty 1
         (flagged_entry\<lparr>segment_raw := [97, 1]\<rparr>) = Inl AssertionError
   \<and> bipa sample (str ''//'') = Inl ValueError
   \<and> process_entry sample [str ''1'' \<mapsto> str ''1_x''] Map.empty 1
         (flagged_entry\<lparr>segment_raw := str ''//''\<rparr>) = Inl ValueError
   \<and> bipa sample (str ''%'') = Inr UnknownSound
   \<and> canonical_parameter sample (str ''%'') = Inr (str ''UNK__u0025'', str ''%'', [], [])"
proof -
  let ?a = "flagged_entry\<lparr>segment_raw := [97, 1]\<rparr>"
  let ?b = "flagged_entry\<lparr>segment_raw := str ''//''\<rparr>"
  have ma: "mark_marginal ?a = Inr (?a\<lparr>marginal := Some (str ''False'')\<rparr>)"
    and mb: "mark_marginal ?b = Inr (?b\<lparr>marginal := Some (str ''False'')\<rparr>)"
    by (simp_all add: mark_marginal_def enclosed_def flagged_entry_def str_simps)
  have na: "normalize_grapheme sample
        (segment_raw (first_allophone (?a\<lparr>marginal := Some (str ''False'')\<rparr>))) = Inr [97, 1]"
    and nb: "normalize_grapheme sample
        (segment_raw (first_allophone (?b\<lparr>marginal := Some (str ''False'')\<rparr>))) = Inr (str ''//'')"
    by (simp_all add: first_allophone_def normalize_grapheme_unfold sample_def str_simps)
  have ba: "bipa sample [97, 1] = Inr UnknownSound"
    and bb: "bipa sample (str ''//'') = Inl ValueError"
    and bc: "bipa sample (str ''%'') = Inr UnknownSound"
    by (simp_all add: sample_def sample_bipa_def str_simps)
  have sa: "slug sample (unidecode sample [97, 1]) = Inl AssertionError"
    and sc: "slug sample (unidecode sample (str ''%'')) = Inr []"
    by (simp_all add: sample_def slug_eval str_simps)
  have "process_entry sample [str ''1'' \<mapsto> str ''1_x''] Map.empty 1 ?a = Inl AssertionError"
    using unknown_segment_raises [OF ma na, of AssertionError] ba sa by simp
  moreover have "process_entry sample [str ''1'' \<mapsto> str ''1_x''] Map.empty 1 ?b = Inl ValueError"
    using unknown_segment_raises [OF mb nb, of ValueError] bb by simp
  moreover have "canonical_parameter sample (str ''%'') = Inr (str ''UNK__u0025'', str ''%'', [], [])"
    using unknown_segment_raises [OF ma na, where label = "[]"] bc sc
    by (simp add: canonical_parameter_def compute_id_def fingerprint_eval)
  ultimately show ?thesis
    using ba bb bc sa by simp
qed

section \<open>The whole loop and the tables\<close>


lemma process_entries_values:
  assumes "process_entries cl pl sm st es = Inr st'" and "w \<in> set (values' st')"
  shows "w \<in> set (values' st)
         \<or> (\<exists>e0 k e p. e0 \<in> set es \<and> process_entry cl pl sm k e0 = Inr (e, p, w))"
  using assms
proof (induction es arbitrary: st)
  case Nil
  then show ?case by simp
next
  case (Cons e0 es)
  from Cons.prems(1) obtain e q v where
    step: "process_entry cl pl sm (counter st) e0 = Inr (e, q, v)"
    and rest: "process_entries cl pl sm
        \<lparr>data = data st @ [e], parameters = parameters st @ [q],
         values' = values' st @ [v], counter = counter st + 1\<rparr> es = Inr st'"
    by (auto split: sum.splits)
  from Cons.IH [OF rest Cons.prems(2)] show ?case
  proof
    assume "w \<in> set (values'
        \<lparr>data = data st @ [e], parameters = parameters st @ [q],
         values' = values' st @ [v], counter = counter st + 1\<rparr>)"
    then have "w \<in> set (values' st) \<or> w = v"
      by auto
    then show ?thesis
    proof
      assume "w \<in> set (values' st)"
      then show ?thesis ..
    next
      assume "w = v"
      with step have "e0 \<in> set (e0 # es)
          \<and> process_entry cl pl sm (counter st) e0 = Inr (e, q, w)"
        by simp
      then show ?thesis
        by blast
    qed
  next
    assume "\<exists>e0 k e p. e0 \<in> set es \<and> process_entry cl pl sm k e0 = Inr (e, p, w)"
    then obtain e0' k e' p' where "e0' \<in> set es"
      and "process_entry cl pl sm k e0' = Inr (e', p', w)"
      by blast
    then have "e0' \<in> set (e0 # es) \<and> process_entry cl pl sm k e0' = Inr (e', p', w)"
      by simp
    then show ?thesis
      by blast
  qed
qed

lemma cmd_makecldf_InrD:
  assumes "cmd_makecldf cl bib langs raw = Inr out"
  shows "\<exists>sm pl st. build_source_map Map.empty bib = Inr sm
           \<and> build_phoible_lang Map.empty langs = Inr pl
           \<and> process_entries cl pl sm
                \<lparr>data = [], parameters = [], values' = [], counter = 1\<rparr> raw = Inr st
           \<and> out = \<lparr>Entries = data st, ValueTable = values' st,
                     ParameterTable = segments (parameters st)\<rparr>"
  using assms by (auto simp: cmd_makecldf_def split: sum.splits)

lemma cmd_makecldf_value:
  assumes "cmd_makecldf cl bib langs raw = Inr out" and "w \<in> set (ValueTable out)"
  shows "\<exists>sm pl e0 k e p. build_source_map Map.empty bib = Inr sm
           \<and> build_phoible_lang Map.empty langs = Inr pl
           \<and> e0 \<in> set raw \<and> process_entry cl pl sm k e0 = Inr (e, p, w)"
proof -
  from cmd_makecldf_InrD [OF assms(1)] obtain sm pl st where
    a: "build_source_map Map.empty bib = Inr sm" "build_phoible_lang Map.empty langs = Inr pl"
    and b: "process_entries cl pl sm
                \<lparr>data = [], parameters = [], values' = [], counter = 1\<rparr> raw = Inr st"
    and c: "out = \<lparr>Entries = data st, ValueTable = values' st,
                     ParameterTable = segments (parameters st)\<rparr>"
    by blast
  from c assms(2) have "w \<in> set (values' st)"
    by simp
  from process_entries_values [OF b this] a show ?thesis
    by auto
qed

text \<open>
  C3 does not hold of the code. The table declares a column \<open>Marginal\<close> (line 317) and
  the loop computes the flag of every entry, but the dictionary appended to \<open>values\<close>
  (lines 420 to 430) has seven keys and \<open>Marginal\<close> is not one of them: no record of
  the value table carries the flag.
\<close>

theorem value_without_marginal:
  assumes "cmd_makecldf cl bib langs raw = Inr out" and "w \<in> set (ValueTable out)"
  shows "map fst w = [str ''ID'', str ''Language_ID'', str ''Parameter_ID'', str ''Value'',
                      str ''Contribution_ID'', str ''Source'', str ''Catalog'']
         \<and> map_of w (str ''Marginal'') = None"
proof -
  from cmd_makecldf_value [OF assms] obtain sm pl e0 k e p where
    "process_entry cl pl sm k e0 = Inr (e, p, w)"
    by blast
  from process_entry_InrD [OF this] show ?thesis
    by (auto simp: str_simps)
qed

lemma sample_run:
  "cmd_makecldf sample bibtex_rows language_rows [angle_entry, paren_entry] = Inr sample_tables"
  by (simp add: cmd_makecldf_def bibtex_rows_def language_rows_def angle_entry_def
      paren_entry_def sample_tables_def segments_def entry_eval)

theorem value_without_marginal_witness:
  "cmd_makecldf sample bibtex_rows language_rows [angle_entry, paren_entry] = Inr sample_tables
   \<and> marginal (hd (Entries sample_tables)) = Some (str ''True'')
   \<and> hd (ValueTable sample_tables) =
       [(str ''ID'', PStr (str ''1'')),
        (str ''Language_ID'', PStr (str ''1_x'')),
        (str ''Parameter_ID'', PStr (str ''BIPA_a_u0061'')),
        (str ''Value'', PStr (str ''a'')),
        (str ''Contribution_ID'', PStr (str ''1'')),
        (str ''Source'', PList []),
        (str ''Catalog'', PStr (str ''phoibleupsid''))]
   \<and> map_of (hd (ValueTable sample_tables)) (str ''Marginal'') = None"
proof -
  have "hd (ValueTable sample_tables) \<in> set (ValueTable sample_tables)"
    by (simp add: sample_tables_def)
  from value_without_marginal [OF sample_run this] sample_run show ?thesis
    by (simp add: sample_tables_def)
qed

section \<open>Segments with the same identifier\<close>

lemma canonical_parameter_text:
  assumes "canonical_parameter cl n = Inr p"
  shows "fst (snd p) = n"
  using assms by (auto simp: canonical_parameter_def split: sum.splits sound.splits)







section \<open>Inventories without bibliography or language\<close>

lemma build_source_map_other:
  assumes "build_source_map m rows = Inr m'"
    and "\<forall>row\<in>set rows. row (str ''InventoryID'') \<noteq> Some inventory"
  shows "m' inventory = m inventory"
  using assms
proof (induction rows arbitrary: m)
  case Nil
  then show ?case by simp
next
  case (Cons row rows)
  from Cons.prems(1) obtain i key where
    i: "row (str ''InventoryID'') = Some i"
    and rest: "build_source_map
        (m(i \<mapsto> (case m i of None \<Rightarrow> [] | Some keys \<Rightarrow> keys) @ [key])) rows = Inr m'"
    by (auto simp: getitem_def split: option.splits sum.splits)
  from Cons.prems(2) i have "i \<noteq> inventory"
    by auto
  moreover from Cons.prems(2) have "\<forall>row\<in>set rows. row (str ''InventoryID'') \<noteq> Some inventory"
    by simp
  ultimately show ?case
    using Cons.IH [OF rest] by simp
qed

lemma build_phoible_lang_other:
  assumes "build_phoible_lang m rows = Inr m'"
    and "\<forall>row\<in>set rows. \<forall>lang. row (str ''ID'') = Some lang \<longrightarrow>
           takeWhile (\<lambda>c. c \<noteq> of_char CHR ''_'') lang \<noteq> inventory"
  shows "m' inventory = m inventory"
  using assms
proof (induction rows arbitrary: m)
  case Nil
  then show ?case by simp
next
  case (Cons row rows)
  from Cons.prems(1) obtain lang where
    i: "row (str ''ID'') = Some lang"
    and rest: "build_phoible_lang
        (m(takeWhile (\<lambda>c. c \<noteq> of_char CHR ''_'') lang \<mapsto> lang)) rows = Inr m'"
    by (auto simp: getitem_def split: option.splits sum.splits)
  from Cons.prems(2) i have "takeWhile (\<lambda>c. c \<noteq> of_char CHR ''_'') lang \<noteq> inventory"
    by auto
  moreover from Cons.prems(2) have "\<forall>row\<in>set rows. \<forall>lang. row (str ''ID'') = Some lang \<longrightarrow>
           takeWhile (\<lambda>c. c \<noteq> of_char CHR ''_'') lang \<noteq> inventory"
    by simp
  ultimately show ?case
    using Cons.IH [OF rest] by simp
qed

lemma process_entry_unmapped:
  assumes "phoible_lang_get pl (inv_id e0) = Inl err"
  shows "isl (process_entry cl pl sm k e0)"
proof (cases "process_entry cl pl sm k e0")
  case (Inl a)
  then show ?thesis by simp
next
  case (Inr r)
  obtain e p v where "r = (e, p, v)"
    by (cases r) auto
  with Inr have run: "process_entry cl pl sm k e0 = Inr (e, p, v)"
    by simp
  from process_entry_InrD [OF run] obtain lang where "phoible_lang_get pl (inv_id e) = Inr lang"
    by blast
  with process_entry_inv_id [OF run] assms show ?thesis
    by simp
qed

lemma process_entries_fails:
  assumes "e0 \<in> set es" and "\<And>k. isl (process_entry cl pl sm k e0)"
  shows "isl (process_entries cl pl sm st es)"
  using assms(1)
proof (induction es arbitrary: st)
  case Nil
  then show ?case by simp
next
  case (Cons e es)
  show ?case
  proof (cases "process_entry cl pl sm (counter st) e")
    case (Inl a)
    then show ?thesis by simp
  next
    case (Inr r)
    with assms(2) [of "counter st"] have "e \<noteq> e0"
      by auto
    with Cons.prems have "e0 \<in> set es"
      by simp
    from Cons.IH [OF this] Inr show ?thesis
      by (simp split: prod.splits)
  qed
qed

lemma process_entry_isl:
  "isl (process_entry cl pl sm k e0) = isl (process_entry cl pl sm' k' e0)"
  by (simp add: process_entry_def Let_def split: sum.splits)

lemma process_entries_isl:
  "isl (process_entries cl pl sm st es) = isl (process_entries cl pl sm' st' es)"
proof (induction es arbitrary: st st')
  case Nil
  then show ?case by simp
next
  case (Cons e es)
  show ?case
  proof (cases "process_entry cl pl sm (counter st) e")
    case (Inl a)
    then have "isl (process_entry cl pl sm' (counter st') e)"
      using process_entry_isl [of cl pl sm "counter st" e sm' "counter st'"] by simp
    then obtain b where "process_entry cl pl sm' (counter st') e = Inl b"
      by (cases "process_entry cl pl sm' (counter st') e") auto
    with Inl show ?thesis
      by simp
  next
    case (Inr r)
    then have "\<not> isl (process_entry cl pl sm' (counter st') e)"
      using process_entry_isl [of cl pl sm "counter st" e sm' "counter st'"] by simp
    then obtain r' where "process_entry cl pl sm' (counter st') e = Inr r'"
      by (cases "process_entry cl pl sm' (counter st') e") auto
    with Inr show ?thesis
      using Cons.IH by (simp split: prod.splits)
  qed
qed

text \<open>
  C10. Three facts about a run. When no row of the bibliography mapping names an
  inventory, every record of the value table for that inventory has the empty list as
  its \<open>Source\<close>. A bibliography mapping that can be read never makes the run raise: the
  run raises with it exactly when it raises with a mapping of no rows. And when no row
  of \<open>languages.csv\<close> gives a language for the inventory of some entry, the run raises.
\<close>

theorem unmapped_inventory:
  "((\<forall>row\<in>set bib. row (str ''InventoryID'') \<noteq> Some inventory)
      \<and> cmd_makecldf cl bib langs raw = Inr out \<and> w \<in> set (ValueTable out)
      \<and> map_of w (str ''Contribution_ID'') = Some (PStr inventory)
      \<longrightarrow> map_of w (str ''Source'') = Some (PList []))
   \<and> (build_source_map Map.empty bib = Inr sm
      \<longrightarrow> isl (cmd_makecldf cl bib langs raw) = isl (cmd_makecldf cl [] langs raw))
   \<and> ((\<forall>row\<in>set langs. \<forall>lang. row (str ''ID'') = Some lang \<longrightarrow>
           takeWhile (\<lambda>c. c \<noteq> of_char CHR ''_'') lang \<noteq> inventory)
      \<and> e0 \<in> set raw \<and> inv_id e0 = Some inventory
      \<longrightarrow> isl (cmd_makecldf cl bib langs raw))"
proof (intro conjI impI)
  assume a: "(\<forall>row\<in>set bib. row (str ''InventoryID'') \<noteq> Some inventory)
      \<and> cmd_makecldf cl bib langs raw = Inr out \<and> w \<in> set (ValueTable out)
      \<and> map_of w (str ''Contribution_ID'') = Some (PStr inventory)"
  then obtain sm' pl e1 k e p where sm': "build_source_map Map.empty bib = Inr sm'"
    and run: "process_entry cl pl sm' k e1 = Inr (e, p, w)"
    using cmd_makecldf_value [of cl bib langs raw out w] by blast
  from a sm' have none: "sm' inventory = None"
    using build_source_map_other [of Map.empty bib sm' inventory] by simp
  from process_entry_InrD [OF run] a have "inv_id e = Some inventory"
    and "map_of w (str ''Source'') = Some (PList (defaultdict_get sm' (inv_id e)))"
    by (auto simp: str_simps pyval_of_opt_def split: option.splits)
  with none show "map_of w (str ''Source'') = Some (PList [])"
    by (simp add: defaultdict_get_def)
next
  assume sm: "build_source_map Map.empty bib = Inr sm"
  show "isl (cmd_makecldf cl bib langs raw) = isl (cmd_makecldf cl [] langs raw)"
  proof (cases "build_phoible_lang Map.empty langs")
    case (Inl err)
    with sm show ?thesis
      by (simp add: cmd_makecldf_def)
  next
    case (Inr pl)
    with sm have "isl (cmd_makecldf cl bib langs raw) = isl (process_entries cl pl sm
          \<lparr>data = [], parameters = [], values' = [], counter = 1\<rparr> raw)"
      by (simp add: cmd_makecldf_def split: sum.splits)
    moreover from Inr have "isl (cmd_makecldf cl [] langs raw) =
        isl (process_entries cl pl Map.empty
          \<lparr>data = [], parameters = [], values' = [], counter = 1\<rparr> raw)"
      by (simp add: cmd_makecldf_def split: sum.splits)
    ultimately show ?thesis
      using process_entries_isl by simp
  qed
next
  assume a: "(\<forall>row\<in>set langs. \<forall>lang. row (str ''ID'') = Some lang \<longrightarrow>
           takeWhile (\<lambda>c. c \<noteq> of_char CHR ''_'') lang \<noteq> inventory)
      \<and> e0 \<in> set raw \<and> inv_id e0 = Some inventory"
  show "isl (cmd_makecldf cl bib langs raw)"
  proof (cases "build_source_map Map.empty bib")
    case (Inl err)
    then show ?thesis by (simp add: cmd_makecldf_def)
  next
    case sm: (Inr sm')
    show ?thesis
    proof (cases "build_phoible_lang Map.empty langs")
      case (Inl err)
      with sm show ?thesis by (simp add: cmd_makecldf_def)
    next
      case pl: (Inr pl)
      from a pl have "pl inventory = None"
        using build_phoible_lang_other [of Map.empty langs pl inventory] by simp
      with a have "phoible_lang_get pl (inv_id e0) = Inl KeyError"
        by (simp add: phoible_lang_get_def getitem_def)
      then have "isl (process_entry cl pl sm' k e0)" for k
        by (rule process_entry_unmapped)
      with a have "isl (process_entries cl pl sm'
          \<lparr>data = [], parameters = [], values' = [], counter = 1\<rparr> raw)"
        using process_entries_fails by blast
      with sm pl show ?thesis
        by (auto simp: cmd_makecldf_def split: sum.splits)
    qed
  qed
qed


theorem unmapped_inventory_witness:
  "cmd_makecldf sample bibtex_rows language_rows [angle_entry, paren_entry] = Inr sample_tables
   \<and> map (\<lambda>w. map_of w (str ''Contribution_ID'')) (ValueTable sample_tables) =
       [Some (PStr (str ''1'')), Some (PStr (str ''2''))]
   \<and> map (\<lambda>w. map_of w (str ''Source'')) (ValueTable sample_tables) =
       [Some (PList []), Some (PList [str ''key2''])]
   \<and> build_source_map Map.empty bibtex_rows = Inr [str ''2'' \<mapsto> [str ''key2'']]
   \<and> \<not> isl (cmd_makecldf sample [] language_rows [angle_entry, paren_entry])
   \<and> cmd_makecldf sample bibtex_rows language_rows
         [angle_entry, paren_entry\<lparr>inv_id := Some (str ''3'')\<rparr>] = Inl KeyError"
proof -
  let ?w = "hd (ValueTable sample_tables)"
  let ?e = "paren_entry\<lparr>inv_id := Some (str ''3'')\<rparr>"
  have nobib: "\<forall>row\<in>set bibtex_rows. row (str ''InventoryID'') \<noteq> Some (str ''1'')"
    by (simp add: bibtex_rows_def str_simps)
  have w: "?w \<in> set (ValueTable sample_tables)"
    "map_of ?w (str ''Contribution_ID'') = Some (PStr (str ''1''))"
    by (simp_all add: sample_tables_def str_simps)
  have sm: "build_source_map Map.empty bibtex_rows = Inr [str ''2'' \<mapsto> [str ''key2'']]"
    by (simp add: bibtex_rows_def getitem_def str_simps)
  have nolang: "\<forall>row\<in>set language_rows. \<forall>lang. row (str ''ID'') = Some lang \<longrightarrow>
      takeWhile (\<lambda>c. c \<noteq> of_char CHR ''_'') lang \<noteq> str ''3''"
    by (auto simp: language_rows_def str_simps)
  have e: "?e \<in> set [angle_entry, ?e]" "inv_id ?e = Some (str ''3'')"
    by simp_all
  have fails: "cmd_makecldf sample bibtex_rows language_rows [angle_entry, ?e] = Inl KeyError"
    by (simp add: cmd_makecldf_def bibtex_rows_def language_rows_def angle_entry_def
        paren_entry_def entry_eval)
  have "map_of ?w (str ''Source'') = Some (PList [])"
    using unmapped_inventory
      [where bib = bibtex_rows and inventory = "str ''1''" and cl = sample
        and langs = language_rows and raw = "[angle_entry, paren_entry]"
        and out = sample_tables and w = ?w]
      nobib sample_run w
    by blast
  moreover have "isl (cmd_makecldf sample bibtex_rows language_rows [angle_entry, paren_entry])
      = isl (cmd_makecldf sample [] language_rows [angle_entry, paren_entry])"
    using unmapped_inventory
      [where bib = bibtex_rows and cl = sample and langs = language_rows
        and raw = "[angle_entry, paren_entry]" and sm = "[str ''2'' \<mapsto> [str ''key2'']]"]
      sm
    by blast
  moreover have "isl (cmd_makecldf sample bibtex_rows language_rows [angle_entry, ?e])"
    using unmapped_inventory
      [where bib = bibtex_rows and inventory = "str ''3''" and cl = sample
        and langs = language_rows and raw = "[angle_entry, ?e]" and ?e0.0 = ?e]
      nolang e
    by blast
  ultimately show ?thesis
    using sample_run sm fails by (simp add: sample_tables_def str_simps)
qed

section \<open>The row-inheritance reader\<close>

lemma priority_column_segment_field: "priority_column fieldnames = segment_field fieldnames"
  by (simp add: priority_column_def segment_field_def)

lemma last_nonempty_Nil: "last_nonempty [] = None"
  by (simp add: last_nonempty_def)

lemma last_nonempty_filter:
  "last_nonempty vs =
     (if filter (\<lambda>v. v \<noteq> []) vs = [] then None
      else Some (last (filter (\<lambda>v. v \<noteq> []) vs)))"
  by (simp add: last_nonempty_def split: list.splits)

lemma last_nonempty_snoc:
  "last_nonempty (vs @ [v]) = (if v \<noteq> [] then Some v else last_nonempty vs)"
  by (simp add: last_nonempty_filter)

lemma common_rows_snoc:
  "common_rows src seg st (rows @ [r]) =
     (case common_rows src seg st rows of
        Inl e \<Rightarrow> Inl e
      | Inr st' \<Rightarrow> common_row src seg st' r)"
  by (induction rows arbitrary: st) (simp_all split: sum.splits)

lemma getitem_cell: "k \<in> dom r \<Longrightarrow> getitem r k = Inr (cell r k)"
  by (auto simp: getitem_def cell_def)

lemma inherited_entry_prefix:
  assumes "i < length rows"
  shows "inherited_entry fieldnames (rows @ [r]) src i = inherited_entry fieldnames rows src i"
  using assms by (simp add: inherited_entry_def nth_append)

lemma inherited_entries_snoc:
  "inherited_entries fieldnames (rows @ [r]) src =
     inherited_entries fieldnames rows src @ inherited_entry fieldnames (rows @ [r]) src (length rows)"
proof -
  have "map (inherited_entry fieldnames (rows @ [r]) src) [0..<length rows] =
      map (inherited_entry fieldnames rows src) [0..<length rows]"
    by (rule map_cong) (simp_all add: inherited_entry_prefix)
  then have eq: "concat (map (inherited_entry fieldnames (rows @ [r]) src) [0..<length rows]) =
      concat (map (inherited_entry fieldnames rows src) [0..<length rows])"
    by (rule arg_cong)
  show ?thesis
    unfolding inherited_entries_def by (simp add: eq)
qed

lemma common_rows_inherited:
  assumes "\<forall>r\<in>set rows.
      {str ''InventoryID'', str ''LanguageName'', priority_column fieldnames} \<subseteq> dom r"
  shows "common_rows src (priority_column fieldnames)
           \<lparr>curr_inventory_id = None, curr_lang_name = None, entries = []\<rparr> rows =
         Inr \<lparr>curr_inventory_id =
                last_nonempty (map (\<lambda>r. cell r (str ''InventoryID'')) rows),
              curr_lang_name =
                last_nonempty (map (\<lambda>r. cell r (str ''LanguageName'')) rows),
              entries = inherited_entries fieldnames rows src\<rparr>"
  using assms
proof (induction rows rule: rev_induct)
  case Nil
  then show ?case
    by (simp add: last_nonempty_Nil inherited_entries_def)
next
  case (snoc r rows)
  then have keys: "str ''InventoryID'' \<in> dom r" "str ''LanguageName'' \<in> dom r"
      "priority_column fieldnames \<in> dom r"
    by simp_all
  from snoc have IH: "common_rows src (priority_column fieldnames)
           \<lparr>curr_inventory_id = None, curr_lang_name = None, entries = []\<rparr> rows =
         Inr \<lparr>curr_inventory_id =
                last_nonempty (map (\<lambda>r. cell r (str ''InventoryID'')) rows),
              curr_lang_name =
                last_nonempty (map (\<lambda>r. cell r (str ''LanguageName'')) rows),
              entries = inherited_entries fieldnames rows src\<rparr>"
    by simp
  show ?case
    unfolding common_rows_snoc IH
    by (simp add: common_row_def getitem_cell [OF keys(1)] getitem_cell [OF keys(2)]
        getitem_cell [OF keys(3)] last_nonempty_snoc inherited_entries_snoc
        inherited_entry_def Let_def)
qed

text \<open>
  C9. On rows that have the three columns it reads, the reader returns the entries of
  the row-inheritance rule: one entry for each row with a non-empty cell in the segment
  column, in the order of the rows, with the last non-empty inventory id and language
  name among the rows up to it, and the segment column chosen as \<open>PhonemeOld\<close>, else
  \<open>Segment\<close>, else \<open>Phoneme\<close>.
\<close>

theorem read_phoible_common_inherits:
  assumes "\<forall>r\<in>set rows.
      {str ''InventoryID'', str ''LanguageName'', segment_field fieldnames} \<subseteq> dom r"
  shows "read_phoible_common fieldnames rows src = Inr (inherited_entries fieldnames rows src)"
  using common_rows_inherited [of rows fieldnames src] assms
  by (simp add: read_phoible_common_def priority_column_segment_field)


theorem read_phoible_common_inherits_witness:
  "segment_field inventory_fieldnames = str ''Segment''
   \<and> read_phoible_common inventory_fieldnames inventory_rows (str ''AA'') =
     Inr [\<lparr>lang_id = str ''AA_L1'', source = str ''PHOIBLE_AA'', inv_id = Some (str ''A''),
           segment_raw = str ''p'', marginal = None\<rparr>,
          \<lparr>lang_id = str ''AA_L1'', source = str ''PHOIBLE_AA'', inv_id = Some (str ''A''),
           segment_raw = str ''t'', marginal = None\<rparr>]
   \<and> inherited_entries inventory_fieldnames inventory_rows (str ''AA'') =
     [\<lparr>lang_id = str ''AA_L1'', source = str ''PHOIBLE_AA'', inv_id = Some (str ''A''),
       segment_raw = str ''p'', marginal = None\<rparr>,
      \<lparr>lang_id = str ''AA_L1'', source = str ''PHOIBLE_AA'', inv_id = Some (str ''A''),
       segment_raw = str ''t'', marginal = None\<rparr>]"
proof -
  have field: "segment_field inventory_fieldnames = str ''Segment''"
    by (simp add: segment_field_def inventory_fieldnames_def str_simps)
  have "\<forall>r\<in>set inventory_rows.
      {str ''InventoryID'', str ''LanguageName'', segment_field inventory_fieldnames} \<subseteq> dom r"
    unfolding field by (simp add: inventory_rows_def str_simps dom_def)
  from read_phoible_common_inherits [OF this, of "str ''AA''"]
  have run: "read_phoible_common inventory_fieldnames inventory_rows (str ''AA'') =
      Inr (inherited_entries inventory_fieldnames inventory_rows (str ''AA''))" .
  have "read_phoible_common inventory_fieldnames inventory_rows (str ''AA'') =
     Inr [\<lparr>lang_id = str ''AA_L1'', source = str ''PHOIBLE_AA'', inv_id = Some (str ''A''),
           segment_raw = str ''p'', marginal = None\<rparr>,
          \<lparr>lang_id = str ''AA_L1'', source = str ''PHOIBLE_AA'', inv_id = Some (str ''A''),
           segment_raw = str ''t'', marginal = None\<rparr>]"
    unfolding read_phoible_common_def field
    by (simp add: inventory_rows_def common_row_def getitem_def format_opt_def str_simps)
  with run field show ?thesis
    by simp
qed

end
